theory Spec2Isabelle
  imports Main "HOL-Library.Sublist"
begin

section \<open>Linkmate (extensions/amp-smartlinks/0.1/linkmate.js)\<close>

text \<open>
  The class \<^verbatim>\<open>Linkmate\<close> collects the anchors of a page, posts them to the Linkmate
  API and maps the smart links of the answer back onto the anchors. The model follows
  the file function by function: \<^verbatim>\<open>buildLinksPayload_\<close>, \<^verbatim>\<open>getEditInfo_\<close>,
  \<^verbatim>\<open>postToLinkmate_\<close>, \<^verbatim>\<open>mapLinks_\<close> and \<^verbatim>\<open>runLinkmate\<close>, with the
  \<^verbatim>\<open>.then\<close> callback of \<^verbatim>\<open>runLinkmate\<close> as a function of its own.
\<close>

subsection \<open>JavaScript values\<close>

text \<open>
  The body of the API response is whatever \<^verbatim>\<open>res.json()\<close> parsed, and the code reads
  it without validation, so the model keeps every shape a parsed body can have.
  A number is held as the text \<^verbatim>\<open>String(n)\<close> gives for it: the code looks at a number
  only through its truthiness and its rendering in a template string, and both are
  functions of that text. An object is the list of its own properties, the first
  binding of a key being the one that counts.
\<close>

datatype jsval =
    Undefined
  | Null
  | Bool bool
  | Num string
  | Str string
  | Arr "jsval list"
  | Obj "(string \<times> jsval) list"

text \<open>
  Every failure the code can meet: a \<^verbatim>\<open>TypeError\<close> raised by the runtime (a property
  read on \<^verbatim>\<open>null\<close> or \<^verbatim>\<open>undefined\<close>, a call of something that is not a function, a
  value with no primitive rendering), or the rejection of the request by the transport
  (\<^verbatim>\<open>xhr.fetchJson\<close> or \<^verbatim>\<open>res.json()\<close>), carried with its message.
\<close>

datatype error = TypeError | TransportFailure string

text \<open>Sequencing of steps that may throw: the first failure is the result.\<close>

fun and_then :: "error + 'a \<Rightarrow> ('a \<Rightarrow> error + 'b) \<Rightarrow> error + 'b" where
  "and_then (Inl e) f = Inl e"
| "and_then (Inr x) f = f x"

text \<open>\<^verbatim>\<open>Array.prototype.map\<close> with a callback that may throw: the elements are visited in
  order and the first exception ends the loop.\<close>

fun array_map :: "('a \<Rightarrow> error + 'b) \<Rightarrow> 'a list \<Rightarrow> error + 'b list" where
  "array_map f [] = Inr []"
| "array_map f (x # xs) =
     and_then (f x) (\<lambda>y. and_then (array_map f xs) (\<lambda>ys. Inr (y # ys)))"

text \<open>The truthiness test of \<^verbatim>\<open>if (v)\<close>, \<^verbatim>\<open>!v\<close> and \<^verbatim>\<open>v && ...\<close>: arrays and objects
  are truthy even when empty.\<close>

fun truthy :: "jsval \<Rightarrow> bool" where
  "truthy Undefined = False"
| "truthy Null = False"
| "truthy (Bool b) = b"
| "truthy (Num n) = (n \<noteq> ''0'' \<and> n \<noteq> ''NaN'')"
| "truthy (Str s) = (s \<noteq> [])"
| "truthy (Arr xs) = True"
| "truthy (Obj kvs) = True"

text \<open>
  \<^verbatim>\<open>v[key]\<close> and \<^verbatim>\<open>v.key\<close> for the keys the code reads by name (\<^verbatim>\<open>data\<close>,
  \<^verbatim>\<open>smart_links\<close>, \<^verbatim>\<open>url\<close>, \<^verbatim>\<open>auction_id\<close>): none of them is a property of a
  prototype, so only an object's own binding gives a value, every other value gives
  \<^verbatim>\<open>undefined\<close>, and \<^verbatim>\<open>null\<close> and \<^verbatim>\<open>undefined\<close> throw.
\<close>

fun get_prop :: "jsval \<Rightarrow> string \<Rightarrow> error + jsval" where
  "get_prop Undefined k = Inl TypeError"
| "get_prop Null k = Inl TypeError"
| "get_prop (Obj kvs) k = Inr (case map_of kvs k of None \<Rightarrow> Undefined | Some v \<Rightarrow> v)"
| "get_prop v k = Inr Undefined"

text \<open>\<^verbatim>\<open>v[0]\<close>: the first element of an array, the first character of a string, the
  property \<^verbatim>\<open>"0"\<close> of an object.\<close>

fun get_index0 :: "jsval \<Rightarrow> error + jsval" where
  "get_index0 Undefined = Inl TypeError"
| "get_index0 Null = Inl TypeError"
| "get_index0 (Arr []) = Inr Undefined"
| "get_index0 (Arr (x # xs)) = Inr x"
| "get_index0 (Str []) = Inr Undefined"
| "get_index0 (Str (c # cs)) = Inr (Str [c])"
| "get_index0 (Obj kvs) = Inr (case map_of kvs ''0'' of None \<Rightarrow> Undefined | Some v \<Rightarrow> v)"
| "get_index0 v = Inr Undefined"

text \<open>
  The rendering of a value inside a template string (\<^verbatim>\<open>`${v}`\<close>). An array renders
  as its elements joined by commas, \<^verbatim>\<open>null\<close> and \<^verbatim>\<open>undefined\<close> elements as
  nothing. A parsed object renders as \<^verbatim>\<open>[object Object]\<close>, unless it has a property
  \<^verbatim>\<open>toString\<close> of its own: that property is data, not a function, and the conversion
  throws.
\<close>

fun to_string :: "jsval \<Rightarrow> error + string"
  and join_elements :: "jsval list \<Rightarrow> error + string" where
  "to_string Undefined = Inr ''undefined''"
| "to_string Null = Inr ''null''"
| "to_string (Bool b) = Inr (if b then ''true'' else ''false'')"
| "to_string (Num n) = Inr n"
| "to_string (Str s) = Inr s"
| "to_string (Arr xs) = join_elements xs"
| "to_string (Obj kvs) =
     (if map_of kvs ''toString'' = None then Inr ''[object Object]'' else Inl TypeError)"
| "join_elements [] = Inr []"
| "join_elements (x # xs) =
     and_then (if x = Undefined \<or> x = Null then Inr [] else to_string x)
       (\<lambda>s. if xs = [] then Inr s
            else and_then (join_elements xs) (\<lambda>r. Inr (s @ '','' @ r)))"

subsection \<open>Anchors and the instance\<close>

text \<open>
  An anchor is an element of the page: \<open>elem\<close> says which element it is, \<open>attrs\<close>
  holds its properties. Two anchors with the same properties can be different
  elements. \<^verbatim>\<open>anchor[name]\<close> is the property's text, or \<^verbatim>\<open>undefined\<close> (\<open>None\<close>).
\<close>

record anchor =
  elem :: nat
  attrs :: "(string \<times> string) list"

definition anchor_prop :: "anchor \<Rightarrow> string \<Rightarrow> string option" where
  "anchor_prop a k = map_of (attrs a) k"

text \<open>The document the instance was built for: the title of its root node (a shadow
  root has none) and the URL of \<^verbatim>\<open>ampDoc.getUrl()\<close>.\<close>

record amp_doc =
  title :: "string option"
  getUrl :: string

text \<open>
  The fields of a \<^verbatim>\<open>Linkmate\<close>, named as in the class without the closing
  underscore of a private name; the argument \<^verbatim>\<open>anchorList\<close> of the methods is called
  \<open>currentAnchors\<close> to keep it apart from the field. \<open>anchorList\<close> is
  \<^verbatim>\<open>null\<close> (\<open>None\<close>) or an array of anchors; \<open>linkmateResponse\<close> starts as
  \<^verbatim>\<open>null\<close> and later holds what was read from a response. The transport \<^verbatim>\<open>xhr_\<close> is outside the model, and so is
  the URL of the request (the endpoint constant with \<^verbatim>\<open>publisherID_\<close> put in): a
  request is identified by the body it carries.
\<close>

record linkmate =
  ampDoc :: amp_doc
  requestExclusiveLinks :: "bool option"
  linkAttribute :: string
  anchorList :: "anchor list option"
  linkmateResponse :: jsval

definition new_linkmate :: "amp_doc \<Rightarrow> bool option \<Rightarrow> string \<Rightarrow> linkmate" where
  "new_linkmate doc exclusiveLinks attributeName =
     \<lparr>ampDoc = doc, requestExclusiveLinks = exclusiveLinks,
      linkAttribute = attributeName, anchorList = None, linkmateResponse = Null\<rparr>"

subsection \<open>The payload\<close>

text \<open>\<^verbatim>\<open>/#donotlink$/.test(link)\<close> and \<^verbatim>\<open>/#locklink$/.test(link)\<close>: the link is turned
  into a string (\<^verbatim>\<open>undefined\<close> into the word) and must end with the literal.\<close>

definition regexp_test_end :: "string \<Rightarrow> string option \<Rightarrow> bool" where
  "regexp_test_end lit link =
     suffix lit (case link of None \<Rightarrow> ''undefined'' | Some s \<Rightarrow> s)"

record link_obj =
  raw_url :: "string option"
  exclusive_match_requested :: bool

fun buildLinksPayload :: "linkmate \<Rightarrow> anchor list \<Rightarrow> link_obj list" where
  "buildLinksPayload this [] = []"
| "buildLinksPayload this (anchor # currentAnchors) =
     (let link = anchor_prop anchor (linkAttribute this) in
      if \<not> regexp_test_end ''#donotlink'' link
      then \<lparr>raw_url = link,
            exclusive_match_requested =
              (requestExclusiveLinks this = Some True \<or> regexp_test_end ''#locklink'' link)\<rparr>
           # buildLinksPayload this currentAnchors
      else buildLinksPayload this currentAnchors)"

record edit_info =
  name :: "string option"
  url :: string

definition getEditInfo :: "linkmate \<Rightarrow> edit_info" where
  "getEditInfo this =
     \<lparr>name = (case title (ampDoc this) of
                None \<Rightarrow> None
              | Some t \<Rightarrow> if t = [] then None else Some t),
      url = getUrl (ampDoc this)\<rparr>"

record payload =
  article :: edit_info
  links :: "link_obj list"

definition postToLinkmate :: "linkmate \<Rightarrow> anchor list \<Rightarrow> payload" where
  "postToLinkmate this currentAnchors =
     \<lparr>article = getEditInfo this, links = buildLinksPayload this currentAnchors\<rparr>"

subsection \<open>Mapping the response onto the anchors\<close>

record mapped_link =
  anchor :: anchor
  replacementUrl :: "string option"

text \<open>\<^verbatim>\<open>anchor[this.linkAttribute_] === smartLink.url\<close>, the left side being a string or
  \<^verbatim>\<open>undefined\<close>: strict equality holds for the same string and for two
  \<^verbatim>\<open>undefined\<close>, and for nothing else.\<close>

fun strict_equals :: "string option \<Rightarrow> jsval \<Rightarrow> bool" where
  "strict_equals None v = (v = Undefined)"
| "strict_equals (Some s) v = (v = Str s)"

text \<open>The inner callback of \<^verbatim>\<open>mapLinks_\<close>, for one smart link and one anchor. The
  template string is built only when the comparison succeeds.\<close>

definition map_anchor :: "linkmate \<Rightarrow> jsval \<Rightarrow> anchor \<Rightarrow> error + mapped_link" where
  "map_anchor this smartLink a =
     and_then (get_prop smartLink ''url'') (\<lambda>u.
       if strict_equals (anchor_prop a (linkAttribute this)) u
       then and_then (get_prop smartLink ''auction_id'') (\<lambda>auction_id.
              and_then (to_string auction_id) (\<lambda>s.
                Inr \<lparr>anchor = a,
                     replacementUrl = Some (''https://shop-links.co/'' @ s @ ''/?amp=true'')\<rparr>))
       else Inr \<lparr>anchor = a, replacementUrl = None\<rparr>)"

text \<open>
  \<^verbatim>\<open>mapLinks_()\<close> reads the two fields of the instance, not an argument. Only an array
  has a \<^verbatim>\<open>map\<close> method, so any other stored response throws; the stored anchor list
  is read (and \<^verbatim>\<open>slice.call(null)\<close> throws) once per smart link; \<^verbatim>\<open>flat()\<close>
  concatenates the rows.
\<close>

definition mapLinks :: "linkmate \<Rightarrow> error + mapped_link list" where
  "mapLinks this =
     (case linkmateResponse this of
        Arr smartLinks \<Rightarrow>
          and_then
            (array_map
               (\<lambda>smartLink.
                  case anchorList this of
                    None \<Rightarrow> Inl TypeError
                  | Some anchors \<Rightarrow> array_map (map_anchor this smartLink) anchors)
               smartLinks)
            (\<lambda>mappedLinks. Inr (concat mappedLinks))
      | _ \<Rightarrow> Inl TypeError)"

subsection \<open>runLinkmate\<close>

text \<open>\<^verbatim>\<open>res.data[0]['smart_links']\<close>\<close>

definition read_smart_links :: "jsval \<Rightarrow> error + jsval" where
  "read_smart_links res =
     and_then (get_prop res ''data'') (\<lambda>d.
       and_then (get_index0 d) (\<lambda>d0. get_prop d0 ''smart_links''))"

text \<open>
  The callback \<^verbatim>\<open>res => {...}\<close> that \<^verbatim>\<open>runLinkmate\<close> chains on the request. It runs
  when the request has succeeded, on the instance as it is at that moment, with the
  anchor list of the call that issued the request. It returns what the promise
  settles to (\<open>Inl\<close>: rejected) and the instance after it: the two assignments come
  before the mapping, so they stay when the mapping throws.
\<close>

definition runLinkmate_then ::
  "linkmate \<Rightarrow> anchor list \<Rightarrow> jsval \<Rightarrow> (error + mapped_link list) \<times> linkmate" where
  "runLinkmate_then this currentAnchors res =
     (case read_smart_links res of
        Inl e \<Rightarrow> (Inl e, this)
      | Inr smart_links \<Rightarrow>
          (let this' = this\<lparr>linkmateResponse := smart_links,
                             anchorList := Some currentAnchors\<rparr>
           in (mapLinks this', this')))"

text \<open>
  The promise \<^verbatim>\<open>asyncMappedLinks\<close>, settled: \<open>outcome\<close> is what
  \<^verbatim>\<open>xhr.fetchJson(...).then(res => res.json())\<close> settled to, a failure of the
  transport or of the decoding (\<open>Inl\<close>) or the parsed body (\<open>Inr\<close>). A rejected
  request skips the callback.
\<close>

definition asyncMappedLinks ::
  "linkmate \<Rightarrow> anchor list \<Rightarrow> error + jsval \<Rightarrow> (error + mapped_link list) \<times> linkmate" where
  "asyncMappedLinks this currentAnchors outcome =
     (case outcome of
        Inl e \<Rightarrow> (Inl e, this)
      | Inr res \<Rightarrow> runLinkmate_then this currentAnchors res)"

text \<open>\<^verbatim>\<open>TwoStepsResponse\<close> holds the two arguments of its constructor: the
  synchronous mapping (\<^verbatim>\<open>null\<close> is \<open>None\<close>) and the pending promise, present when
  a request was issued and held as the body of that request.\<close>

record two_steps_response =
  syncResponse :: "mapped_link list option"
  asyncResponse :: "payload option"

text \<open>
  \<^verbatim>\<open>runLinkmate(anchorList)\<close>. \<^verbatim>\<open>deepEquals\<close> is imported from \<^verbatim>\<open>src/json\<close>,
  another file of the repository, so the comparison is the parameter \<open>deepEquals\<close>.
  The result is what the call returns (\<open>Inl\<close>: it threw) and the instance after the
  call. The only exception is that of \<^verbatim>\<open>mapLinks_\<close> on line 68, before any
  assignment.
\<close>

definition runLinkmate ::
  "(anchor list \<Rightarrow> anchor list \<Rightarrow> bool) \<Rightarrow> linkmate \<Rightarrow> anchor list
     \<Rightarrow> (error + two_steps_response) \<times> linkmate" where
  "runLinkmate deepEquals this currentAnchors =
     (let changed = (case anchorList this of
                       None \<Rightarrow> False
                     | Some stored \<Rightarrow> \<not> deepEquals stored currentAnchors)
      in
      case (if truthy (linkmateResponse this) \<and> changed
            then and_then (mapLinks this) (\<lambda>m. Inr (Some m))
            else Inr None) of
        Inl e \<Rightarrow> (Inl e, this)
      | Inr syncMappedLinks \<Rightarrow>
          if \<not> truthy (linkmateResponse this) \<or> changed
          then (Inr \<lparr>syncResponse = syncMappedLinks,
                     asyncResponse = Some (postToLinkmate this currentAnchors)\<rparr>,
                this)
          else (Inr \<lparr>syncResponse = syncMappedLinks, asyncResponse = None\<rparr>,
                this\<lparr>anchorList := Some currentAnchors\<rparr>))"

text \<open>
  Modelled from the spec: \<^verbatim>\<open>deepEquals\<close> of \<^verbatim>\<open>src/json\<close> is missing from the sources.
  The spec calls the comparison structural equality, not identity: two anchor lists
  are equal when they have the same length and the anchors at each position have the
  same properties, whichever elements of the page they are.
\<close>

definition deepEquals :: "anchor list \<Rightarrow> anchor list \<Rightarrow> bool" where
  "deepEquals a b = (map attrs a = map attrs b)"

subsection \<open>The mapping as the specification words it\<close>

text \<open>
  A smart link of the specification is an object with a string \<^verbatim>\<open>url\<close> and a string
  \<^verbatim>\<open>auction_id\<close>, and possibly other fields. \<open>as_smart_link\<close> reads the pair off a
  parsed value, \<open>None\<close> when the value is not of that shape.
\<close>

definition as_smart_link :: "jsval \<Rightarrow> (string \<times> string) option" where
  "as_smart_link v =
     (case v of
        Obj kvs \<Rightarrow>
          (case map_of kvs ''url'' of
             Some (Str u) \<Rightarrow>
               (case map_of kvs ''auction_id'' of
                  Some (Str a) \<Rightarrow> Some (u, a)
                | _ \<Rightarrow> None)
           | _ \<Rightarrow> None)
      | _ \<Rightarrow> None)"

text \<open>The entry of the specification for one smart link \<open>(url, auction_id)\<close> and one
  anchor, and the flattened matrix: response order outer, anchor order inner.\<close>

definition reconciliation_result :: "string \<Rightarrow> string \<times> string \<Rightarrow> anchor \<Rightarrow> mapped_link" where
  "reconciliation_result attribute s a =
     \<lparr>anchor = a,
      replacementUrl =
        (if anchor_prop a attribute = Some (fst s)
         then Some (''https://shop-links.co/'' @ snd s @ ''/?amp=true'')
         else None)\<rparr>"

definition reconcile_spec ::
  "string \<Rightarrow> (string \<times> string) list \<Rightarrow> anchor list \<Rightarrow> mapped_link list" where
  "reconcile_spec attribute smart_links anchors =
     concat (map (\<lambda>s. map (reconciliation_result attribute s) anchors) smart_links)"

subsection \<open>Sample values\<close>

text \<open>A page, an instance configured as in the examples of the specification
  (\<^verbatim>\<open>{exclusiveLinks: false, linkAttribute: 'href'}\<close>), a few anchors and one smart
  link, used to run the definitions on concrete inputs.\<close>

definition sample_doc :: amp_doc where
  "sample_doc = \<lparr>title = Some ''Article'', getUrl = ''https://example.com/article''\<rparr>"

definition sample_linkmate :: linkmate where
  "sample_linkmate = new_linkmate sample_doc (Some False) ''href''"

definition anchor_a :: anchor where
  "anchor_a = \<lparr>elem = 1, attrs = [(''href'', ''http://a.com'')]\<rparr>"

definition anchor_b :: anchor where
  "anchor_b = \<lparr>elem = 2, attrs = [(''href'', ''http://b.com'')]\<rparr>"

definition anchor_lock :: anchor where
  "anchor_lock = \<lparr>elem = 3, attrs = [(''href'', ''http://b.com#locklink'')]\<rparr>"

definition anchor_skip :: anchor where
  "anchor_skip = \<lparr>elem = 4, attrs = [(''href'', ''http://a.com#donotlink'')]\<rparr>"

text \<open>Another element of the page with the properties of \<open>anchor_a\<close>.\<close>

definition anchor_a_again :: anchor where
  "anchor_a_again = \<lparr>elem = 5, attrs = [(''href'', ''http://a.com'')]\<rparr>"

definition smart_link_a :: jsval where
  "smart_link_a = Obj [(''url'', Str ''http://a.com''), (''auction_id'', Str ''X1'')]"

text \<open>A smart link whose url is the link of \<open>anchor_skip\<close>.\<close>

definition smart_link_skip :: jsval where
  "smart_link_skip =
     Obj [(''url'', Str ''http://a.com#donotlink''), (''auction_id'', Str ''X2'')]"



text \<open>The instance after a first successful round for the anchor list \<open>anchors\<close>.\<close>

definition cached_linkmate :: "jsval list \<Rightarrow> anchor list \<Rightarrow> linkmate" where
  "cached_linkmate smart_links anchors =
     sample_linkmate\<lparr>anchorList := Some anchors, linkmateResponse := Arr smart_links\<rparr>"

section \<open>Properties\<close>

subsection \<open>The mapping of a well-formed response\<close>

lemma array_map_Inr:
  "(\<And>x. x \<in> set xs \<Longrightarrow> f x = Inr (g x)) \<Longrightarrow> array_map f xs = Inr (map g xs)"
  by (induction xs) simp_all

lemma as_smart_link_Obj:
  "as_smart_link v = Some s \<Longrightarrow>
     get_prop v ''url'' = Inr (Str (fst s)) \<and> get_prop v ''auction_id'' = Inr (Str (snd s))"
  by (auto simp: as_smart_link_def split: jsval.splits option.splits)

lemma strict_equals_Str: "strict_equals l (Str u) = (l = Some u)"
  by (cases l) auto

lemma map_anchor_smart_link:
  assumes "as_smart_link v = Some s"
  shows "map_anchor this v a = Inr (reconciliation_result (linkAttribute this) s a)"
  using as_smart_link_Obj [OF assms]
  by (simp add: map_anchor_def reconciliation_result_def strict_equals_Str)

lemma smart_links_nth:
  assumes "map as_smart_link S = map Some T" "v \<in> set S"
  shows "\<exists>s. as_smart_link v = Some s"
proof -
  from assms(2) obtain i where i: "i < length S" "S ! i = v"
    by (auto simp: in_set_conv_nth)
  from assms(1) have "length S = length T"
    by (metis length_map)
  with i assms(1) have "as_smart_link v = Some (T ! i)"
    by (metis nth_map)
  then show ?thesis ..
qed

lemma mapLinks_smart_links:
  assumes "linkmateResponse this = Arr S" "anchorList this = Some A"
    and "map as_smart_link S = map Some T"
  shows "mapLinks this = Inr (reconcile_spec (linkAttribute this) T A)"
proof -
  let ?row = "\<lambda>v. map (reconciliation_result (linkAttribute this) (the (as_smart_link v))) A"
  have row: "array_map (map_anchor this v) A = Inr (?row v)" if "v \<in> set S" for v
  proof -
    from smart_links_nth [OF assms(3) that] obtain s where "as_smart_link v = Some s" ..
    then show ?thesis
      by (simp add: array_map_Inr map_anchor_smart_link)
  qed
  have "array_map (\<lambda>v. array_map (map_anchor this v) A) S = Inr (map ?row S)"
    by (rule array_map_Inr) (rule row)
  moreover have "map ?row S = map (\<lambda>s. map (reconciliation_result (linkAttribute this) s) A) T"
  proof -
    have "map ?row S = map ((\<lambda>s. map (reconciliation_result (linkAttribute this) s) A) \<circ> the)
                         (map as_smart_link S)"
      by (simp add: comp_def)
    also have "\<dots> = map (\<lambda>s. map (reconciliation_result (linkAttribute this) s) A) T"
      by (simp add: assms(3) comp_def)
    finally show ?thesis .
  qed
  ultimately show ?thesis
    by (simp add: mapLinks_def assms(1,2) reconcile_spec_def)
qed

lemma length_reconcile_spec:
  "length (reconcile_spec attribute T A) = length T * length A"
  by (induction T) (simp_all add: reconcile_spec_def)

lemma nth_reconcile_spec:
  "i < length T \<Longrightarrow> j < length A \<Longrightarrow>
     reconcile_spec attribute T A ! (i * length A + j) = reconciliation_result attribute (T ! i) (A ! j)"
proof (induction T arbitrary: i)
  case Nil
  then show ?case by simp
next
  case (Cons s T)
  have unfold: "reconcile_spec attribute (s # T) A =
      map (reconciliation_result attribute s) A @ reconcile_spec attribute T A"
    by (simp add: reconcile_spec_def)
  show ?case
  proof (cases i)
    case 0
    with Cons.prems show ?thesis
      by (simp add: unfold nth_append)
  next
    case (Suc k)
    with Cons.prems have "k < length T" by simp
    from Cons.IH [OF this Cons.prems(2)] Suc show ?thesis
      by (simp add: unfold nth_append add.assoc)
  qed
qed

lemma set_reconcile_spec:
  "set (reconcile_spec attribute T A) = (\<Union>s\<in>set T. reconciliation_result attribute s ` set A)"
  by (simp add: reconcile_spec_def)

lemma cached_linkmate_fields:
  "linkmateResponse (cached_linkmate S A) = Arr S"
  "anchorList (cached_linkmate S A) = Some A"
  "linkAttribute (cached_linkmate S A) = ''href''"
  "requestExclusiveLinks (cached_linkmate S A) = Some False"
  by (simp_all add: cached_linkmate_def sample_linkmate_def new_linkmate_def)

subsection \<open>The mapping is the flattened matrix of smart links and anchors\<close>

text \<open>
  C2. Let the stored response be a list \<open>S\<close> of smart links, \<open>T\<close> giving the
  \<open>(url, auction_id)\<close> of each, and let \<open>A\<close> be the stored anchor list. Then
  \<^verbatim>\<open>mapLinks_\<close> returns a flat list of exactly \<open>|S| * |A|\<close> entries; the entry at
  position \<open>i * |A| + j\<close> (response order outer, anchor order inner) is the one of the
  \<open>i\<close>-th smart link and the \<open>j\<close>-th anchor: it holds that anchor, and its
  \<open>replacementUrl\<close> is \<^verbatim>\<open>https://shop-links.co/\<close> followed by the auction id and
  \<^verbatim>\<open>/?amp=true\<close> when the anchor's link attribute is exactly the smart link's url,
  and \<^verbatim>\<open>null\<close> otherwise.
\<close>

theorem mapLinks_flat_matrix:
  assumes "linkmateResponse this = Arr S" and "anchorList this = Some A"
    and "map as_smart_link S = map Some T"
  shows "\<exists>m. mapLinks this = Inr m \<and> length m = length S * length A \<and>
    (\<forall>i<length S. \<forall>j<length A.
       m ! (i * length A + j) =
         \<lparr>anchor = A ! j,
          replacementUrl =
            (if anchor_prop (A ! j) (linkAttribute this) = Some (fst (T ! i))
             then Some (''https://shop-links.co/'' @ snd (T ! i) @ ''/?amp=true'')
             else None)\<rparr>)"
proof -
  from assms(3) have len: "length S = length T"
    by (metis length_map)
  let ?m = "reconcile_spec (linkAttribute this) T A"
  have "mapLinks this = Inr ?m"
    by (rule mapLinks_smart_links [OF assms])
  moreover have "length ?m = length S * length A"
    by (simp add: length_reconcile_spec len)
  moreover have "?m ! (i * length A + j) =
         \<lparr>anchor = A ! j,
          replacementUrl =
            (if anchor_prop (A ! j) (linkAttribute this) = Some (fst (T ! i))
             then Some (''https://shop-links.co/'' @ snd (T ! i) @ ''/?amp=true'')
             else None)\<rparr>" if "i < length S" "j < length A" for i j
    using that by (simp add: nth_reconcile_spec len reconciliation_result_def)
  ultimately show ?thesis by blast
qed

text \<open>Two smart links and two anchors: the rows follow the response, each row the
  anchor list.\<close>

theorem mapLinks_flat_matrix_witness:
  "\<exists>m. mapLinks (cached_linkmate [smart_link_a, smart_link_skip] [anchor_a, anchor_skip]) = Inr m \<and>
     length m = 4 \<and>
     m ! 0 = \<lparr>anchor = anchor_a, replacementUrl = Some ''https://shop-links.co/X1/?amp=true''\<rparr> \<and>
     m ! 1 = \<lparr>anchor = anchor_skip, replacementUrl = None\<rparr> \<and>
     m ! 2 = \<lparr>anchor = anchor_a, replacementUrl = None\<rparr> \<and>
     m ! 3 = \<lparr>anchor = anchor_skip, replacementUrl = Some ''https://shop-links.co/X2/?amp=true''\<rparr>"
proof -
  let ?A = "[anchor_a, anchor_skip]"
  let ?T = "[(''http://a.com'', ''X1''), (''http://a.com#donotlink'', ''X2'')]"
  let ?lm = "cached_linkmate [smart_link_a, smart_link_skip] ?A"
  have h1: "linkmateResponse ?lm = Arr [smart_link_a, smart_link_skip]"
    and h2: "anchorList ?lm = Some ?A"
    by (simp_all add: cached_linkmate_fields)
  have h3: "map as_smart_link [smart_link_a, smart_link_skip] = map Some ?T"
    by (simp add: as_smart_link_def smart_link_a_def smart_link_skip_def)
  let ?S = "[smart_link_a, smart_link_skip]"
  from mapLinks_flat_matrix [OF h1 h2 h3] obtain m where
    m: "mapLinks ?lm = Inr m" and len: "length m = length ?S * length ?A"
    and cells: "\<forall>i<length ?S. \<forall>j<length ?A. m ! (i * length ?A + j) =
         \<lparr>anchor = ?A ! j,
          replacementUrl =
            (if anchor_prop (?A ! j) (linkAttribute ?lm) = Some (fst (?T ! i))
             then Some (''https://shop-links.co/'' @ snd (?T ! i) @ ''/?amp=true'')
             else None)\<rparr>"
    by blast
  note cell = cells [rule_format]
  have links: "anchor_prop anchor_a ''href'' = Some ''http://a.com''"
    "anchor_prop anchor_skip ''href'' = Some ''http://a.com#donotlink''"
    by (simp_all add: anchor_prop_def anchor_a_def anchor_skip_def)
  from cell [of 0 0] have "m ! 0 =
      \<lparr>anchor = anchor_a, replacementUrl = Some ''https://shop-links.co/X1/?amp=true''\<rparr>"
    by (simp add: links cached_linkmate_fields eval_nat_numeral)
  moreover from cell [of 0 1] have "m ! 1 = \<lparr>anchor = anchor_skip, replacementUrl = None\<rparr>"
    by (simp add: links cached_linkmate_fields eval_nat_numeral)
  moreover from cell [of 1 0] have "m ! 2 = \<lparr>anchor = anchor_a, replacementUrl = None\<rparr>"
    by (simp add: links cached_linkmate_fields eval_nat_numeral)
  moreover from cell [of 1 1] have "m ! 3 =
      \<lparr>anchor = anchor_skip, replacementUrl = Some ''https://shop-links.co/X2/?amp=true''\<rparr>"
    by (simp add: links cached_linkmate_fields eval_nat_numeral)
  ultimately show ?thesis using m len by simp
qed

subsection \<open>The payload\<close>

text \<open>The loop of \<^verbatim>\<open>buildLinksPayload_\<close> as a filter followed by a map.\<close>

lemma buildLinksPayload_map_filter:
  "buildLinksPayload this L =
     map (\<lambda>a. \<lparr>raw_url = anchor_prop a (linkAttribute this),
                exclusive_match_requested =
                  (requestExclusiveLinks this = Some True \<or>
                   regexp_test_end ''#locklink'' (anchor_prop a (linkAttribute this)))\<rparr>)
       (filter (\<lambda>a. \<not> regexp_test_end ''#donotlink'' (anchor_prop a (linkAttribute this))) L)"
  by (induction L) (simp_all add: Let_def)

lemma regexp_test_end_Some: "regexp_test_end lit (Some s) = suffix lit s"
  by (simp add: regexp_test_end_def)

lemma regexp_test_end_None:
  "regexp_test_end ''#donotlink'' None = False" "regexp_test_end ''#locklink'' None = False"
  by (simp_all add: regexp_test_end_def suffix_def)

text \<open>
  C7. For every anchor list, the links of the payload are the values of the configured
  link attribute of the anchors, in the order of the list, without those that end with
  \<^verbatim>\<open>#donotlink\<close>: every other anchor contributes exactly one entry, and no entry
  has a \<open>raw_url\<close> ending with \<^verbatim>\<open>#donotlink\<close>.
\<close>

theorem buildLinksPayload_skips_donotlink:
  "map raw_url (buildLinksPayload this L) =
     filter (\<lambda>link. \<not> regexp_test_end ''#donotlink'' link)
       (map (\<lambda>a. anchor_prop a (linkAttribute this)) L) \<and>
   (\<forall>e\<in>set (buildLinksPayload this L). \<forall>s. raw_url e = Some s \<longrightarrow> \<not> suffix ''#donotlink'' s)"
proof
  show "map raw_url (buildLinksPayload this L) =
     filter (\<lambda>link. \<not> regexp_test_end ''#donotlink'' link)
       (map (\<lambda>a. anchor_prop a (linkAttribute this)) L)"
    by (simp add: buildLinksPayload_map_filter filter_map comp_def)
  show "\<forall>e\<in>set (buildLinksPayload this L). \<forall>s. raw_url e = Some s \<longrightarrow> \<not> suffix ''#donotlink'' s"
    by (auto simp: buildLinksPayload_map_filter regexp_test_end_Some)
qed

text \<open>Three anchors, the second one marked \<^verbatim>\<open>#donotlink\<close>.\<close>

theorem buildLinksPayload_skips_donotlink_witness:
  "map raw_url (buildLinksPayload sample_linkmate [anchor_a, anchor_skip, anchor_lock]) =
     [Some ''http://a.com'', Some ''http://b.com#locklink''] \<and>
   anchor_prop anchor_skip (linkAttribute sample_linkmate) = Some ''http://a.com#donotlink''"
  using buildLinksPayload_skips_donotlink [of sample_linkmate "[anchor_a, anchor_skip, anchor_lock]"]
  by (simp add: sample_linkmate_def new_linkmate_def anchor_a_def anchor_skip_def anchor_lock_def
      anchor_prop_def regexp_test_end_def suffix_def)

text \<open>
  C8. Every anchor that is not skipped contributes the entry whose
  \<open>exclusive_match_requested\<close> is true exactly when the exclusive-links flag of the
  instance is true or the anchor's link ends with \<^verbatim>\<open>#locklink\<close>; so every entry
  of the payload has the flag exactly in that case.
\<close>

theorem buildLinksPayload_exclusive:
  "buildLinksPayload this L =
     map (\<lambda>a. \<lparr>raw_url = anchor_prop a (linkAttribute this),
                exclusive_match_requested =
                  (requestExclusiveLinks this = Some True \<or>
                   regexp_test_end ''#locklink'' (anchor_prop a (linkAttribute this)))\<rparr>)
       (filter (\<lambda>a. \<not> regexp_test_end ''#donotlink'' (anchor_prop a (linkAttribute this))) L) \<and>
   (\<forall>e\<in>set (buildLinksPayload this L).
      exclusive_match_requested e =
        (requestExclusiveLinks this = Some True \<or> (\<exists>s. raw_url e = Some s \<and> suffix ''#locklink'' s)))"
proof
  show "buildLinksPayload this L =
     map (\<lambda>a. \<lparr>raw_url = anchor_prop a (linkAttribute this),
                exclusive_match_requested =
                  (requestExclusiveLinks this = Some True \<or>
                   regexp_test_end ''#locklink'' (anchor_prop a (linkAttribute this)))\<rparr>)
       (filter (\<lambda>a. \<not> regexp_test_end ''#donotlink'' (anchor_prop a (linkAttribute this))) L)"
    by (rule buildLinksPayload_map_filter)
  have "regexp_test_end ''#locklink'' link = (\<exists>s. link = Some s \<and> suffix ''#locklink'' s)" for link
    by (cases link) (simp_all add: regexp_test_end_None regexp_test_end_Some)
  then show "\<forall>e\<in>set (buildLinksPayload this L).
      exclusive_match_requested e =
        (requestExclusiveLinks this = Some True \<or> (\<exists>s. raw_url e = Some s \<and> suffix ''#locklink'' s))"
    by (auto simp: buildLinksPayload_map_filter)
qed

text \<open>The example of the specification (flag off, one \<^verbatim>\<open>#locklink\<close> anchor), and a
  plain anchor with the flag on.\<close>

theorem buildLinksPayload_exclusive_witness:
  "buildLinksPayload sample_linkmate [anchor_a, anchor_lock] =
     [\<lparr>raw_url = Some ''http://a.com'', exclusive_match_requested = False\<rparr>,
      \<lparr>raw_url = Some ''http://b.com#locklink'', exclusive_match_requested = True\<rparr>] \<and>
   buildLinksPayload (sample_linkmate\<lparr>requestExclusiveLinks := Some True\<rparr>) [anchor_a] =
     [\<lparr>raw_url = Some ''http://a.com'', exclusive_match_requested = True\<rparr>]"
  using buildLinksPayload_exclusive [of sample_linkmate "[anchor_a, anchor_lock]"]
    buildLinksPayload_exclusive [of "sample_linkmate\<lparr>requestExclusiveLinks := Some True\<rparr>" "[anchor_a]"]
  by (simp add: sample_linkmate_def new_linkmate_def anchor_a_def anchor_lock_def
      anchor_prop_def regexp_test_end_def suffix_def)

subsection \<open>The mapping does not skip anchors\<close>

text \<open>
  C10. The \<^verbatim>\<open>#donotlink\<close> rule belongs to the payload only. Let the stored response
  be a list of smart links and let \<open>a\<close> be a stored anchor whose link ends with
  \<^verbatim>\<open>#donotlink\<close>. The payload built from the stored anchors has no entry for that
  link, but the mapping pairs \<open>a\<close> with every smart link, and the entry has a
  \<open>replacementUrl\<close> whenever the link is exactly the smart link's url.
\<close>

theorem mapLinks_keeps_donotlink:
  assumes "linkmateResponse this = Arr S" and "anchorList this = Some A"
    and "map as_smart_link S = map Some T"
    and "a \<in> set A" and "anchor_prop a (linkAttribute this) = Some link"
    and "suffix ''#donotlink'' link"
  shows "\<exists>m. mapLinks this = Inr m \<and>
      (\<forall>s\<in>set T.
         \<lparr>anchor = a,
          replacementUrl =
            (if link = fst s then Some (''https://shop-links.co/'' @ snd s @ ''/?amp=true'')
             else None)\<rparr> \<in> set m) \<and>
      Some link \<notin> raw_url ` set (buildLinksPayload this A)"
proof -
  let ?m = "reconcile_spec (linkAttribute this) T A"
  have "mapLinks this = Inr ?m"
    by (rule mapLinks_smart_links [OF assms(1-3)])
  moreover have "\<lparr>anchor = a,
          replacementUrl =
            (if link = fst s then Some (''https://shop-links.co/'' @ snd s @ ''/?amp=true'')
             else None)\<rparr> \<in> set ?m" if "s \<in> set T" for s
  proof -
    have "reconciliation_result (linkAttribute this) s a \<in> set ?m"
      using that assms(4) by (auto simp: set_reconcile_spec)
    then show ?thesis
      by (simp add: reconciliation_result_def assms(5))
  qed
  moreover have "Some link \<notin> raw_url ` set (buildLinksPayload this A)"
  proof
    assume "Some link \<in> raw_url ` set (buildLinksPayload this A)"
    then obtain b where "anchor_prop b (linkAttribute this) = Some link"
      and "\<not> regexp_test_end ''#donotlink'' (anchor_prop b (linkAttribute this))"
      by (auto simp: buildLinksPayload_map_filter)
    with assms(6) show False
      by (simp add: regexp_test_end_Some)
  qed
  ultimately show ?thesis by blast
qed

text \<open>A smart link for the very url of a skipped anchor.\<close>

theorem mapLinks_keeps_donotlink_witness:
  "mapLinks (cached_linkmate [smart_link_skip] [anchor_a, anchor_skip]) =
     Inr [\<lparr>anchor = anchor_a, replacementUrl = None\<rparr>,
          \<lparr>anchor = anchor_skip, replacementUrl = Some ''https://shop-links.co/X2/?amp=true''\<rparr>] \<and>
   suffix ''#donotlink'' ''http://a.com#donotlink'' \<and>
   map raw_url (buildLinksPayload (cached_linkmate [smart_link_skip] [anchor_a, anchor_skip])
       [anchor_a, anchor_skip]) = [Some ''http://a.com'']"
proof -
  let ?lm = "cached_linkmate [smart_link_skip] [anchor_a, anchor_skip]"
  have h1: "linkmateResponse ?lm = Arr [smart_link_skip]"
    and h2: "anchorList ?lm = Some [anchor_a, anchor_skip]"
    by (simp_all add: cached_linkmate_fields)
  have h3: "map as_smart_link [smart_link_skip] = map Some [(''http://a.com#donotlink'', ''X2'')]"
    by (simp add: as_smart_link_def smart_link_skip_def)
  have h4: "anchor_skip \<in> set [anchor_a, anchor_skip]"
    by simp
  have h5: "anchor_prop anchor_skip (linkAttribute ?lm) = Some ''http://a.com#donotlink''"
    by (simp add: cached_linkmate_fields anchor_prop_def anchor_skip_def)
  have h6: "suffix ''#donotlink'' ''http://a.com#donotlink''"
    by (simp add: suffix_def)
  from mapLinks_keeps_donotlink [OF h1 h2 h3 h4 h5 h6] obtain m where
    m: "mapLinks ?lm = Inr m"
    and kept: "\<lparr>anchor = anchor_skip,
        replacementUrl = Some ''https://shop-links.co/X2/?amp=true''\<rparr> \<in> set m"
    by auto
  have "mapLinks ?lm =
     Inr [\<lparr>anchor = anchor_a, replacementUrl = None\<rparr>,
          \<lparr>anchor = anchor_skip, replacementUrl = Some ''https://shop-links.co/X2/?amp=true''\<rparr>]"
    by (simp add: mapLinks_def map_anchor_def cached_linkmate_fields smart_link_skip_def
        anchor_prop_def anchor_a_def anchor_skip_def)
  moreover have "map raw_url (buildLinksPayload ?lm [anchor_a, anchor_skip]) = [Some ''http://a.com'']"
    by (simp add: cached_linkmate_fields anchor_prop_def anchor_a_def anchor_skip_def
        regexp_test_end_def suffix_def)
  ultimately show ?thesis using h6 m kept by simp
qed

subsection \<open>The three paths of runLinkmate\<close>

text \<open>No stored response: a request, no synchronous mapping. A stored response and a
  changed anchor list: the stale mapping and a request. A stored response and an
  unchanged (or unset) anchor list: neither, and the field takes the argument.\<close>

lemma runLinkmate_no_response:
  assumes "\<not> truthy (linkmateResponse this)"
  shows "runLinkmate deq this L =
    (Inr \<lparr>syncResponse = None, asyncResponse = Some (postToLinkmate this L)\<rparr>, this)"
  using assms by (simp add: runLinkmate_def)

lemma runLinkmate_changed:
  assumes "truthy (linkmateResponse this)" and "anchorList this = Some A" and "\<not> deq A L"
  shows "runLinkmate deq this L =
    (case mapLinks this of
       Inl e \<Rightarrow> (Inl e, this)
     | Inr m \<Rightarrow>
         (Inr \<lparr>syncResponse = Some m, asyncResponse = Some (postToLinkmate this L)\<rparr>, this))"
  using assms by (cases "mapLinks this") (simp_all add: runLinkmate_def)

lemma runLinkmate_unchanged:
  assumes "truthy (linkmateResponse this)"
    and "anchorList this = None \<or> (\<exists>A. anchorList this = Some A \<and> deq A L)"
  shows "runLinkmate deq this L =
    (Inr \<lparr>syncResponse = None, asyncResponse = None\<rparr>, this\<lparr>anchorList := Some L\<rparr>)"
  using assms by (auto simp: runLinkmate_def)

text \<open>The three cases cover every state.\<close>

lemma runLinkmate_cases:
  obtains (no_response) "\<not> truthy (linkmateResponse this)"
  | (changed) A where "truthy (linkmateResponse this)" "anchorList this = Some A" "\<not> deq A L"
  | (unchanged) "truthy (linkmateResponse this)"
      "anchorList this = None \<or> (\<exists>A. anchorList this = Some A \<and> deq A L)"
  by (cases "anchorList this") auto

text \<open>The settled promise: rejected by the transport, rejected while reading
  \<^verbatim>\<open>res.data[0]['smart_links']\<close>, or past the two assignments.\<close>

lemma asyncMappedLinks_rejected:
  "asyncMappedLinks this L (Inl e) = (Inl e, this)"
  by (simp add: asyncMappedLinks_def)

lemma asyncMappedLinks_unreadable:
  "read_smart_links res = Inl e \<Longrightarrow> asyncMappedLinks this L (Inr res) = (Inl e, this)"
  by (simp add: asyncMappedLinks_def runLinkmate_then_def)

lemma asyncMappedLinks_read:
  "read_smart_links res = Inr v \<Longrightarrow>
     asyncMappedLinks this L (Inr res) =
       (mapLinks (this\<lparr>linkmateResponse := v, anchorList := Some L\<rparr>),
        this\<lparr>linkmateResponse := v, anchorList := Some L\<rparr>)"
  by (simp add: asyncMappedLinks_def runLinkmate_then_def Let_def)

subsection \<open>The synchronous mapping\<close>

text \<open>
  C1. Take a state whose stored response is a list of smart links and whose stored
  anchor list \<open>A\<close> is set, and a call with an anchor list \<open>L\<close> that
  \<^verbatim>\<open>deepEquals\<close> tells apart from \<open>A\<close>. The call returns, and its synchronous mapping
  is not \<^verbatim>\<open>null\<close>: it is the reconciliation of the stored response against the stored
  anchor list \<open>A\<close>, the field \<^verbatim>\<open>mapLinks_\<close> reads. The argument \<open>L\<close> of the call
  takes no part in it: it reaches the field only in the callback of the request.
\<close>

theorem runLinkmate_sync_maps_stored_anchors:
  assumes "linkmateResponse this = Arr S" and "map as_smart_link S = map Some T"
    and "anchorList this = Some A" and "\<not> deq A L"
  shows "\<exists>r. fst (runLinkmate deq this L) = Inr r \<and>
    syncResponse r = Some (reconcile_spec (linkAttribute this) T A)"
proof -
  have "mapLinks this = Inr (reconcile_spec (linkAttribute this) T A)"
    by (rule mapLinks_smart_links [OF assms(1,3,2)])
  moreover have "truthy (linkmateResponse this)"
    by (simp add: assms(1))
  ultimately show ?thesis
    by (simp add: runLinkmate_changed [where deq = deq and A = A and L = L, OF _ assms(3,4)])
qed

text \<open>The stored list holds \<open>anchor_b\<close>, the call brings \<open>anchor_a\<close>, whose link
  the stored smart link matches: the synchronous mapping has the entry of
  \<open>anchor_b\<close>, while reconciling the response against the list of the call gives the
  replacement url for \<open>anchor_a\<close>.\<close>

theorem runLinkmate_sync_maps_stored_anchors_witness:
  "\<not> deepEquals [anchor_b] [anchor_a] \<and>
   fst (runLinkmate deepEquals (cached_linkmate [smart_link_a] [anchor_b]) [anchor_a]) =
     Inr \<lparr>syncResponse = Some [\<lparr>anchor = anchor_b, replacementUrl = None\<rparr>],
          asyncResponse =
            Some \<lparr>article = \<lparr>name = Some ''Article'', url = ''https://example.com/article''\<rparr>,
                  links = [\<lparr>raw_url = Some ''http://a.com'',
                            exclusive_match_requested = False\<rparr>]\<rparr>\<rparr> \<and>
   reconcile_spec ''href'' [(''http://a.com'', ''X1'')] [anchor_a] =
     [\<lparr>anchor = anchor_a, replacementUrl = Some ''https://shop-links.co/X1/?amp=true''\<rparr>]"
proof -
  let ?lm = "cached_linkmate [smart_link_a] [anchor_b]"
  have h1: "linkmateResponse ?lm = Arr [smart_link_a]"
    and h3: "anchorList ?lm = Some [anchor_b]"
    by (simp_all add: cached_linkmate_fields)
  have h2: "map as_smart_link [smart_link_a] = map Some [(''http://a.com'', ''X1'')]"
    by (simp add: as_smart_link_def smart_link_a_def)
  have h4: "\<not> deepEquals [anchor_b] [anchor_a]"
    by (simp add: deepEquals_def anchor_a_def anchor_b_def)
  from runLinkmate_sync_maps_stored_anchors
    [where deq = deepEquals and A = "[anchor_b]" and L = "[anchor_a]", OF h1 h2 h3 h4]
  obtain r where
    r: "fst (runLinkmate deepEquals ?lm [anchor_a]) = Inr r"
    and sync: "syncResponse r = Some (reconcile_spec ''href'' [(''http://a.com'', ''X1'')] [anchor_b])"
    by (auto simp: cached_linkmate_fields)
  have stored: "reconcile_spec ''href'' [(''http://a.com'', ''X1'')] [anchor_b] =
      [\<lparr>anchor = anchor_b, replacementUrl = None\<rparr>]"
    by (simp add: reconcile_spec_def reconciliation_result_def anchor_prop_def anchor_b_def)
  have current: "reconcile_spec ''href'' [(''http://a.com'', ''X1'')] [anchor_a] =
      [\<lparr>anchor = anchor_a, replacementUrl = Some ''https://shop-links.co/X1/?amp=true''\<rparr>]"
    by (simp add: reconcile_spec_def reconciliation_result_def anchor_prop_def anchor_a_def)
  have "truthy (linkmateResponse ?lm)"
    by (simp add: h1)
  from runLinkmate_changed
    [where deq = deepEquals and A = "[anchor_b]" and L = "[anchor_a]", OF this h3 h4] r sync
  have "fst (runLinkmate deepEquals ?lm [anchor_a]) =
     Inr \<lparr>syncResponse = Some [\<lparr>anchor = anchor_b, replacementUrl = None\<rparr>],
          asyncResponse = Some (postToLinkmate ?lm [anchor_a])\<rparr>"
    by (cases "mapLinks ?lm") (auto simp: stored)
  moreover have "postToLinkmate ?lm [anchor_a] =
     \<lparr>article = \<lparr>name = Some ''Article'', url = ''https://example.com/article''\<rparr>,
      links = [\<lparr>raw_url = Some ''http://a.com'', exclusive_match_requested = False\<rparr>]\<rparr>"
    by (simp add: postToLinkmate_def getEditInfo_def cached_linkmate_def sample_linkmate_def
        new_linkmate_def sample_doc_def anchor_prop_def anchor_a_def regexp_test_end_def suffix_def)
  ultimately show ?thesis
    using h4 current by simp
qed


subsection \<open>A synchronous mapping comes with a request\<close>

text \<open>
  C9. When a response is stored and the stored anchor list is unset or equal to the
  argument, the call issues no request and its synchronous mapping is \<^verbatim>\<open>null\<close>.
  For every call that returns: if no request was issued, the synchronous mapping is
  \<^verbatim>\<open>null\<close> and the state was of that kind; so a result with a synchronous mapping
  always has a pending request.
\<close>

theorem runLinkmate_sync_needs_request:
  "(truthy (linkmateResponse this) \<and>
      (anchorList this = None \<or> (\<exists>A. anchorList this = Some A \<and> deq A L)) \<longrightarrow>
      fst (runLinkmate deq this L) = Inr \<lparr>syncResponse = None, asyncResponse = None\<rparr>) \<and>
   (\<forall>r. fst (runLinkmate deq this L) = Inr r \<longrightarrow>
      (asyncResponse r = None \<longrightarrow>
         syncResponse r = None \<and> truthy (linkmateResponse this) \<and>
         (anchorList this = None \<or> (\<exists>A. anchorList this = Some A \<and> deq A L))) \<and>
      (syncResponse r \<noteq> None \<longrightarrow> asyncResponse r \<noteq> None))"
proof (cases rule: runLinkmate_cases [where this = this and deq = deq and L = L])
  case no_response
  then show ?thesis
    by (simp add: runLinkmate_no_response)
next
  case (changed A)
  then show ?thesis
    by (cases "mapLinks this") (simp_all add: runLinkmate_changed [where deq = deq and A = A and L = L])
next
  case unchanged
  then show ?thesis
    by (simp add: runLinkmate_unchanged)
qed

text \<open>The page was rendered again: another element with the same link.\<close>

theorem runLinkmate_sync_needs_request_witness:
  "truthy (linkmateResponse (cached_linkmate [smart_link_a] [anchor_a])) \<and>
   deepEquals [anchor_a] [anchor_a_again] \<and>
   fst (runLinkmate deepEquals (cached_linkmate [smart_link_a] [anchor_a]) [anchor_a_again]) =
     Inr \<lparr>syncResponse = None, asyncResponse = None\<rparr>"
proof -
  let ?lm = "cached_linkmate [smart_link_a] [anchor_a]"
  have h1: "truthy (linkmateResponse ?lm)"
    by (simp add: cached_linkmate_fields)
  have h2: "deepEquals [anchor_a] [anchor_a_again]"
    by (simp add: deepEquals_def anchor_a_def anchor_a_again_def)
  then have "anchorList ?lm = None \<or>
      (\<exists>A. anchorList ?lm = Some A \<and> deepEquals A [anchor_a_again])"
    by (simp add: cached_linkmate_fields)
  with h1 runLinkmate_sync_needs_request [of ?lm deepEquals "[anchor_a_again]"]
  have "fst (runLinkmate deepEquals ?lm [anchor_a_again]) =
      Inr \<lparr>syncResponse = None, asyncResponse = None\<rparr>"
    by blast
  with h1 h2 show ?thesis by simp
qed

subsection \<open>A request that fails\<close>

lemma runLinkmate_request_keeps_state:
  assumes "fst (runLinkmate deq this L) = Inr r" and "asyncResponse r \<noteq> None"
  shows "snd (runLinkmate deq this L) = this"
proof (cases rule: runLinkmate_cases [where this = this and deq = deq and L = L])
  case no_response
  then show ?thesis
    by (simp add: runLinkmate_no_response)
next
  case (changed A)
  then show ?thesis
    by (cases "mapLinks this") (simp_all add: runLinkmate_changed [where deq = deq and A = A and L = L])
next
  case unchanged
  with assms show ?thesis
    by (auto simp: runLinkmate_unchanged)
qed

text \<open>
  C3, as the code has it. Let a call issue a request. The call itself leaves the
  instance as it was. If the transport or the decoding of the body fails, or if reading
  \<^verbatim>\<open>res.data[0]['smart_links']\<close> from the parsed body throws, the promise is
  rejected with that failure and the instance is still as it was before the call.
  Once that value has been read, both fields are overwritten before the mapping is
  computed, whatever the value is.
\<close>

theorem asyncMappedLinks_failure_before_update:
  assumes "fst (runLinkmate deq this L) = Inr r" and "asyncResponse r \<noteq> None"
  shows "snd (runLinkmate deq this L) = this \<and>
    (\<forall>e. asyncMappedLinks this L (Inl e) = (Inl e, this)) \<and>
    (\<forall>res e. read_smart_links res = Inl e \<longrightarrow>
       asyncMappedLinks this L (Inr res) = (Inl e, this)) \<and>
    (\<forall>res v. read_smart_links res = Inr v \<longrightarrow>
       snd (asyncMappedLinks this L (Inr res)) =
         this\<lparr>linkmateResponse := v, anchorList := Some L\<rparr>)"
  using runLinkmate_request_keeps_state [OF assms]
  by (simp add: asyncMappedLinks_rejected asyncMappedLinks_unreadable asyncMappedLinks_read)

text \<open>A timeout, a body without \<^verbatim>\<open>data\<close>, and a body with an empty \<^verbatim>\<open>data\<close>.\<close>

theorem asyncMappedLinks_failure_before_update_witness:
  "fst (runLinkmate deepEquals sample_linkmate [anchor_a]) =
     Inr \<lparr>syncResponse = None, asyncResponse = Some (postToLinkmate sample_linkmate [anchor_a])\<rparr> \<and>
   snd (runLinkmate deepEquals sample_linkmate [anchor_a]) = sample_linkmate \<and>
   asyncMappedLinks sample_linkmate [anchor_a] (Inl (TransportFailure ''timeout'')) =
     (Inl (TransportFailure ''timeout''), sample_linkmate) \<and>
   read_smart_links (Obj [(''error'', Str ''no such publisher'')]) = Inl TypeError \<and>
   asyncMappedLinks sample_linkmate [anchor_a] (Inr (Obj [(''error'', Str ''no such publisher'')])) =
     (Inl TypeError, sample_linkmate) \<and>
   read_smart_links (Obj [(''data'', Arr [])]) = Inl TypeError \<and>
   asyncMappedLinks sample_linkmate [anchor_a] (Inr (Obj [(''data'', Arr [])])) =
     (Inl TypeError, sample_linkmate)"
proof -
  have unset: "\<not> truthy (linkmateResponse sample_linkmate)"
    by (simp add: sample_linkmate_def new_linkmate_def)
  have call: "fst (runLinkmate deepEquals sample_linkmate [anchor_a]) =
     Inr \<lparr>syncResponse = None, asyncResponse = Some (postToLinkmate sample_linkmate [anchor_a])\<rparr>"
    by (simp add: runLinkmate_no_response [OF unset])
  have pending: "asyncResponse \<lparr>syncResponse = None,
      asyncResponse = Some (postToLinkmate sample_linkmate [anchor_a])\<rparr> \<noteq> None"
    by simp
  have r1: "read_smart_links (Obj [(''error'', Str ''no such publisher'')]) = Inl TypeError"
    by (simp add: read_smart_links_def)
  have r2: "read_smart_links (Obj [(''data'', Arr [])]) = Inl TypeError"
    by (simp add: read_smart_links_def)
  from asyncMappedLinks_failure_before_update [OF call pending] call r1 r2
  show ?thesis by simp
qed

text \<open>
  C3 as stated fails for the body \<^verbatim>\<open>{"data": [{}]}\<close>: \<^verbatim>\<open>smart_links\<close> is missing,
  the value read is \<^verbatim>\<open>undefined\<close>, both fields are assigned, and then
  \<^verbatim>\<open>mapLinks_\<close> throws. The promise is rejected, the stored response is gone and the
  stored anchor list is the one of the call.
\<close>

theorem asyncMappedLinks_rejects_after_update:
  "fst (runLinkmate deepEquals (cached_linkmate [smart_link_a] [anchor_b]) [anchor_a]) =
     Inr \<lparr>syncResponse = Some [\<lparr>anchor = anchor_b, replacementUrl = None\<rparr>],
          asyncResponse =
            Some (postToLinkmate (cached_linkmate [smart_link_a] [anchor_b]) [anchor_a])\<rparr> \<and>
   snd (runLinkmate deepEquals (cached_linkmate [smart_link_a] [anchor_b]) [anchor_a]) =
     cached_linkmate [smart_link_a] [anchor_b] \<and>
   read_smart_links (Obj [(''data'', Arr [Obj []])]) = Inr Undefined \<and>
   asyncMappedLinks (cached_linkmate [smart_link_a] [anchor_b]) [anchor_a]
       (Inr (Obj [(''data'', Arr [Obj []])])) =
     (Inl TypeError,
      (cached_linkmate [smart_link_a] [anchor_b])
        \<lparr>linkmateResponse := Undefined, anchorList := Some [anchor_a]\<rparr>) \<and>
   linkmateResponse (cached_linkmate [smart_link_a] [anchor_b]) = Arr [smart_link_a] \<and>
   anchorList (cached_linkmate [smart_link_a] [anchor_b]) = Some [anchor_b] \<and>
   [anchor_a] \<noteq> [anchor_b]"
proof -
  let ?lm = "cached_linkmate [smart_link_a] [anchor_b]"
  have set: "truthy (linkmateResponse ?lm)" and stored: "anchorList ?lm = Some [anchor_b]"
    by (simp_all add: cached_linkmate_fields)
  have differ: "\<not> deepEquals [anchor_b] [anchor_a]"
    by (simp add: deepEquals_def anchor_a_def anchor_b_def)
  have stale: "mapLinks ?lm = Inr [\<lparr>anchor = anchor_b, replacementUrl = None\<rparr>]"
    by (simp add: mapLinks_def map_anchor_def cached_linkmate_fields smart_link_a_def
        anchor_prop_def anchor_b_def)
  have call: "runLinkmate deepEquals ?lm [anchor_a] =
     (Inr \<lparr>syncResponse = Some [\<lparr>anchor = anchor_b, replacementUrl = None\<rparr>],
           asyncResponse = Some (postToLinkmate ?lm [anchor_a])\<rparr>, ?lm)"
    by (simp add: stale
        runLinkmate_changed [where deq = deepEquals and A = "[anchor_b]", OF set stored differ])
  have read: "read_smart_links (Obj [(''data'', Arr [Obj []])]) = Inr Undefined"
    by (simp add: read_smart_links_def)
  have settle: "asyncMappedLinks ?lm [anchor_a] (Inr (Obj [(''data'', Arr [Obj []])])) =
     (Inl TypeError, ?lm\<lparr>linkmateResponse := Undefined, anchorList := Some [anchor_a]\<rparr>)"
    by (simp add: asyncMappedLinks_read [OF read] mapLinks_def)
  have "[anchor_a] \<noteq> [anchor_b]"
    by (simp add: anchor_a_def anchor_b_def)
  with call read settle show ?thesis
    by (simp add: cached_linkmate_fields)
qed

subsection \<open>What a call may change\<close>

text \<open>
  C5, as the code has it. No call changes the stored response by itself. A call that
  throws, or that issues a request, leaves the whole instance as it was, and so does a
  request that the transport rejects: on these paths both fields keep their values
  until a response arrives. A call that issues no request overwrites the stored anchor
  list with its argument (line 85); the list it replaces, when there was one, was equal
  to the argument by \<^verbatim>\<open>deepEquals\<close>.
\<close>

theorem runLinkmate_frame:
  "linkmateResponse (snd (runLinkmate deq this L)) = linkmateResponse this \<and>
   (\<forall>e. fst (runLinkmate deq this L) = Inl e \<longrightarrow> snd (runLinkmate deq this L) = this) \<and>
   (\<forall>r. fst (runLinkmate deq this L) = Inr r \<longrightarrow>
      (asyncResponse r \<noteq> None \<longrightarrow> snd (runLinkmate deq this L) = this) \<and>
      (asyncResponse r = None \<longrightarrow>
         snd (runLinkmate deq this L) = this\<lparr>anchorList := Some L\<rparr> \<and>
         (\<forall>A. anchorList this = Some A \<longrightarrow> deq A L))) \<and>
   (\<forall>e. asyncMappedLinks this L (Inl e) = (Inl e, this))"
proof (cases rule: runLinkmate_cases [where this = this and deq = deq and L = L])
  case no_response
  then show ?thesis
    by (simp add: runLinkmate_no_response asyncMappedLinks_rejected)
next
  case (changed A)
  then show ?thesis
    by (cases "mapLinks this")
      (simp_all add: runLinkmate_changed [where deq = deq and A = A and L = L]
        asyncMappedLinks_rejected)
next
  case unchanged
  then show ?thesis
    by (auto simp: runLinkmate_unchanged asyncMappedLinks_rejected)
qed

text \<open>A call without request and a call with one.\<close>

theorem runLinkmate_frame_witness:
  "runLinkmate deepEquals (cached_linkmate [smart_link_a] [anchor_a]) [anchor_a_again] =
     (Inr \<lparr>syncResponse = None, asyncResponse = None\<rparr>,
      cached_linkmate [smart_link_a] [anchor_a_again]) \<and>
   deepEquals [anchor_a] [anchor_a_again] \<and>
   runLinkmate deepEquals sample_linkmate [anchor_a] =
     (Inr \<lparr>syncResponse = None, asyncResponse = Some (postToLinkmate sample_linkmate [anchor_a])\<rparr>,
      sample_linkmate) \<and>
   asyncMappedLinks sample_linkmate [anchor_a] (Inl (TransportFailure ''offline'')) =
     (Inl (TransportFailure ''offline''), sample_linkmate)"
proof -
  let ?lm = "cached_linkmate [smart_link_a] [anchor_a]"
  have eq: "deepEquals [anchor_a] [anchor_a_again]"
    by (simp add: deepEquals_def anchor_a_def anchor_a_again_def)
  have "truthy (linkmateResponse ?lm)"
    by (simp add: cached_linkmate_fields)
  moreover from eq have "anchorList ?lm = None \<or>
      (\<exists>A. anchorList ?lm = Some A \<and> deepEquals A [anchor_a_again])"
    by (simp add: cached_linkmate_fields)
  ultimately have quiet: "fst (runLinkmate deepEquals ?lm [anchor_a_again]) =
      Inr \<lparr>syncResponse = None, asyncResponse = None\<rparr>"
    by (simp add: runLinkmate_unchanged)
  have "\<not> truthy (linkmateResponse sample_linkmate)"
    by (simp add: sample_linkmate_def new_linkmate_def)
  then have request: "fst (runLinkmate deepEquals sample_linkmate [anchor_a]) =
      Inr \<lparr>syncResponse = None, asyncResponse = Some (postToLinkmate sample_linkmate [anchor_a])\<rparr>"
    by (simp add: runLinkmate_no_response)
  have moved: "?lm\<lparr>anchorList := Some [anchor_a_again]\<rparr> =
      cached_linkmate [smart_link_a] [anchor_a_again]"
    by (simp add: cached_linkmate_def)
  from runLinkmate_frame [of deepEquals ?lm "[anchor_a_again]"] quiet
  have "snd (runLinkmate deepEquals ?lm [anchor_a_again]) =
      cached_linkmate [smart_link_a] [anchor_a_again]"
    by (simp add: moved)
  with quiet have first: "runLinkmate deepEquals ?lm [anchor_a_again] =
     (Inr \<lparr>syncResponse = None, asyncResponse = None\<rparr>,
      cached_linkmate [smart_link_a] [anchor_a_again])"
    by (simp add: prod_eq_iff)
  from runLinkmate_frame [of deepEquals sample_linkmate "[anchor_a]"] request
  have "snd (runLinkmate deepEquals sample_linkmate [anchor_a]) = sample_linkmate \<and>
    asyncMappedLinks sample_linkmate [anchor_a] (Inl (TransportFailure ''offline'')) =
     (Inl (TransportFailure ''offline''), sample_linkmate)"
    by simp
  with request first eq show ?thesis
    by (simp add: prod_eq_iff)
qed

text \<open>
  C5 as stated fails on the path without request: the page was rendered again, the
  call brings another element with the same link, no request is issued, and the stored
  anchor list is no longer the one it was.
\<close>

theorem runLinkmate_overwrites_anchorList:
  "deepEquals [anchor_a] [anchor_a_again] \<and>
   fst (runLinkmate deepEquals (cached_linkmate [smart_link_a] [anchor_a]) [anchor_a_again]) =
     Inr \<lparr>syncResponse = None, asyncResponse = None\<rparr> \<and>
   anchorList (cached_linkmate [smart_link_a] [anchor_a]) = Some [anchor_a] \<and>
   anchorList (snd (runLinkmate deepEquals (cached_linkmate [smart_link_a] [anchor_a])
       [anchor_a_again])) = Some [anchor_a_again] \<and>
   [anchor_a_again] \<noteq> [anchor_a]"
proof -
  let ?lm = "cached_linkmate [smart_link_a] [anchor_a]"
  have eq: "deepEquals [anchor_a] [anchor_a_again]"
    by (simp add: deepEquals_def anchor_a_def anchor_a_again_def)
  have "truthy (linkmateResponse ?lm)"
    by (simp add: cached_linkmate_fields)
  moreover from eq have "anchorList ?lm = None \<or>
      (\<exists>A. anchorList ?lm = Some A \<and> deepEquals A [anchor_a_again])"
    by (simp add: cached_linkmate_fields)
  ultimately have "runLinkmate deepEquals ?lm [anchor_a_again] =
      (Inr \<lparr>syncResponse = None, asyncResponse = None\<rparr>, ?lm\<lparr>anchorList := Some [anchor_a_again]\<rparr>)"
    by (rule runLinkmate_unchanged)
  moreover have "[anchor_a_again] \<noteq> [anchor_a]"
    by (simp add: anchor_a_def anchor_a_again_def)
  ultimately show ?thesis
    using eq by (simp add: cached_linkmate_fields)
qed

subsection \<open>Calling twice with an equal anchor list\<close>

text \<open>
  C4, as the code has it. Let a response be stored, with a stored anchor list \<open>A\<close>.
  A first call brings a list \<open>L1\<close> equal to \<open>A\<close>, after which the stored list is
  \<open>L1\<close>; a second call brings a list \<open>L2\<close> equal to it. The second call issues
  no request and returns the synchronous part alone (\<^verbatim>\<open>null\<close>, with no promise).
  Its state is the state after the first call with the stored anchor list replaced by
  \<open>L2\<close>: the same response and an equal anchor list. The two states are the same
  exactly when the second call brings the very list of the first.
\<close>

theorem runLinkmate_twice_equal_anchors:
  assumes "truthy (linkmateResponse this)" and "anchorList this = Some A"
    and "deq A L1" and "deq L1 L2"
  shows "fst (runLinkmate deq (snd (runLinkmate deq this L1)) L2) =
      Inr \<lparr>syncResponse = None, asyncResponse = None\<rparr> \<and>
    snd (runLinkmate deq (snd (runLinkmate deq this L1)) L2) =
      (snd (runLinkmate deq this L1))\<lparr>anchorList := Some L2\<rparr> \<and>
    linkmateResponse (snd (runLinkmate deq (snd (runLinkmate deq this L1)) L2)) =
      linkmateResponse (snd (runLinkmate deq this L1)) \<and>
    anchorList (snd (runLinkmate deq this L1)) = Some L1 \<and>
    anchorList (snd (runLinkmate deq (snd (runLinkmate deq this L1)) L2)) = Some L2 \<and>
    (snd (runLinkmate deq (snd (runLinkmate deq this L1)) L2) = snd (runLinkmate deq this L1)
       \<longleftrightarrow> L2 = L1)"
proof -
  let ?s1 = "this\<lparr>anchorList := Some L1\<rparr>"
  have first: "runLinkmate deq this L1 =
      (Inr \<lparr>syncResponse = None, asyncResponse = None\<rparr>, ?s1)"
    using assms(1-3) by (simp add: runLinkmate_unchanged)
  have "truthy (linkmateResponse ?s1)"
    using assms(1) by simp
  moreover have "anchorList ?s1 = None \<or> (\<exists>A. anchorList ?s1 = Some A \<and> deq A L2)"
    using assms(4) by simp
  ultimately have second: "runLinkmate deq ?s1 L2 =
      (Inr \<lparr>syncResponse = None, asyncResponse = None\<rparr>, ?s1\<lparr>anchorList := Some L2\<rparr>)"
    by (rule runLinkmate_unchanged)
  have same: "(?s1\<lparr>anchorList := Some L2\<rparr> = ?s1) = (L2 = L1)"
  proof
    assume "?s1\<lparr>anchorList := Some L2\<rparr> = ?s1"
    then have "anchorList (?s1\<lparr>anchorList := Some L2\<rparr>) = anchorList ?s1"
      by (rule arg_cong)
    then show "L2 = L1" by simp
  next
    assume "L2 = L1"
    then show "?s1\<lparr>anchorList := Some L2\<rparr> = ?s1" by simp
  qed
  show ?thesis
    unfolding first fst_conv snd_conv second same by simp
qed

text \<open>The same list, equal to the stored one, twice.\<close>

theorem runLinkmate_twice_equal_anchors_witness:
  "truthy (linkmateResponse (cached_linkmate [smart_link_a] [anchor_a])) \<and>
   deepEquals [anchor_a] [anchor_a_again] \<and> deepEquals [anchor_a_again] [anchor_a_again] \<and>
   fst (runLinkmate deepEquals
          (snd (runLinkmate deepEquals (cached_linkmate [smart_link_a] [anchor_a]) [anchor_a_again]))
          [anchor_a_again]) =
     Inr \<lparr>syncResponse = None, asyncResponse = None\<rparr> \<and>
   snd (runLinkmate deepEquals
          (snd (runLinkmate deepEquals (cached_linkmate [smart_link_a] [anchor_a]) [anchor_a_again]))
          [anchor_a_again]) =
     snd (runLinkmate deepEquals (cached_linkmate [smart_link_a] [anchor_a]) [anchor_a_again])"
proof -
  let ?lm = "cached_linkmate [smart_link_a] [anchor_a]"
  have h1: "truthy (linkmateResponse ?lm)" and h2: "anchorList ?lm = Some [anchor_a]"
    by (simp_all add: cached_linkmate_fields)
  have h3: "deepEquals [anchor_a] [anchor_a_again]"
    by (simp add: deepEquals_def anchor_a_def anchor_a_again_def)
  have h4: "deepEquals [anchor_a_again] [anchor_a_again]"
    by (simp add: deepEquals_def)
  from runLinkmate_twice_equal_anchors
    [where deq = deepEquals and A = "[anchor_a]" and ?L1.0 = "[anchor_a_again]"
      and ?L2.0 = "[anchor_a_again]", OF h1 h2 h3 h4]
  show ?thesis
    using h1 h3 h4 by simp
qed

text \<open>
  C4 as stated fails when the two lists are equal to the stored one but are not the
  same list. The stored list holds \<open>anchor_a\<close>. The first call brings that list
  and leaves the instance as it is; the second call, made on that state, brings
  another element with the same link. Neither call issues a request, and the state
  after the second call is not the state after the first.
\<close>

theorem runLinkmate_twice_states_differ:
  "truthy (linkmateResponse (cached_linkmate [smart_link_a] [anchor_a])) \<and>
   anchorList (cached_linkmate [smart_link_a] [anchor_a]) = Some [anchor_a] \<and>
   deepEquals [anchor_a] [anchor_a] \<and> deepEquals [anchor_a] [anchor_a_again] \<and>
   runLinkmate deepEquals (cached_linkmate [smart_link_a] [anchor_a]) [anchor_a] =
     (Inr \<lparr>syncResponse = None, asyncResponse = None\<rparr>,
      cached_linkmate [smart_link_a] [anchor_a]) \<and>
   runLinkmate deepEquals (cached_linkmate [smart_link_a] [anchor_a]) [anchor_a_again] =
     (Inr \<lparr>syncResponse = None, asyncResponse = None\<rparr>,
      cached_linkmate [smart_link_a] [anchor_a_again]) \<and>
   cached_linkmate [smart_link_a] [anchor_a_again] \<noteq> cached_linkmate [smart_link_a] [anchor_a]"
proof -
  let ?lm = "cached_linkmate [smart_link_a] [anchor_a]"
  have set: "truthy (linkmateResponse ?lm)" and stored: "anchorList ?lm = Some [anchor_a]"
    by (simp_all add: cached_linkmate_fields)
  have e1: "deepEquals [anchor_a] [anchor_a]"
    by (simp add: deepEquals_def)
  have e2: "deepEquals [anchor_a] [anchor_a_again]"
    by (simp add: deepEquals_def anchor_a_def anchor_a_again_def)
  have moved: "?lm\<lparr>anchorList := Some L\<rparr> = cached_linkmate [smart_link_a] L" for L
    by (simp add: cached_linkmate_def)
  from e1 have "anchorList ?lm = None \<or> (\<exists>A. anchorList ?lm = Some A \<and> deepEquals A [anchor_a])"
    by (simp add: cached_linkmate_fields)
  with set have first: "runLinkmate deepEquals ?lm [anchor_a] =
      (Inr \<lparr>syncResponse = None, asyncResponse = None\<rparr>, ?lm)"
    by (simp add: runLinkmate_unchanged moved)
  from e2 have "anchorList ?lm = None \<or>
      (\<exists>A. anchorList ?lm = Some A \<and> deepEquals A [anchor_a_again])"
    by (simp add: cached_linkmate_fields)
  with set have second: "runLinkmate deepEquals ?lm [anchor_a_again] =
      (Inr \<lparr>syncResponse = None, asyncResponse = None\<rparr>,
       cached_linkmate [smart_link_a] [anchor_a_again])"
    by (simp add: runLinkmate_unchanged moved)
  have "cached_linkmate [smart_link_a] [anchor_a_again] \<noteq> ?lm"
  proof
    assume "cached_linkmate [smart_link_a] [anchor_a_again] = ?lm"
    then have "anchorList (cached_linkmate [smart_link_a] [anchor_a_again]) = anchorList ?lm"
      by (rule arg_cong)
    then show False
      by (simp add: cached_linkmate_fields anchor_a_def anchor_a_again_def)
  qed
  with set stored e1 e2 first second show ?thesis
    by (simp only: simp_thms)
qed

subsection \<open>The request and its answer\<close>





end
